theory Spec2Isabelle
  imports Complex_Main "HOL-Library.Word" "HOL-Library.Sublist" "HOL-Library.AList"
begin

section \<open>JavaScript strings\<close>

text \<open>
  A JavaScript string is a sequence of UTF-16 code units; \<open>length\<close> counts code units.
  The bullet \<open>U+2022\<close> and the degree sign \<open>U+00B0\<close> of \<open>server.js\<close> are one code
  unit each.  \<open>js\<close> embeds an ASCII literal.
\<close>

type_synonym jschar = "16 word"
type_synonym jsstring = "jschar list"

definition js :: "string \<Rightarrow> jsstring" where
  "js s = map of_char s"

text \<open>\<open>String.prototype.includes\<close>: does \<open>sub\<close> occur in \<open>s\<close> as a contiguous run.\<close>

fun str_includes :: "jsstring \<Rightarrow> jsstring \<Rightarrow> bool" where
  "str_includes [] sub = (sub = [])"
| "str_includes (c # cs) sub = (prefix sub (c # cs) \<or> str_includes cs sub)"

section \<open>The request counter (\<open>checkRateLimit\<close> and the daily clean-up)\<close>

text \<open>
  \<open>requestCounts\<close> is a JavaScript \<open>Map\<close> from strings to numbers.  A \<open>Map\<close> keeps its
  entries in insertion order, so it is an association list: \<open>get\<close> is \<open>map_of\<close>, \<open>set\<close>
  is \<open>AList.update\<close> (which overwrites in place or appends), \<open>delete\<close> is
  \<open>AList.delete\<close>.  The counts are whole numbers far below \<open>2^53\<close>, so \<open>nat\<close>.
\<close>

type_synonym counts = "(jsstring \<times> nat) list"

definition DAILY_LIMIT :: nat where
  "DAILY_LIMIT = 60"

text \<open>The template literal \<open>`${ip}-${today}`\<close>.\<close>

definition rate_key :: "jsstring \<Rightarrow> jsstring \<Rightarrow> jsstring" where
  "rate_key ip today = ip @ js ''-'' @ today"

text \<open>
  \<open>checkRateLimit\<close>: \<open>ip\<close> is \<open>req.ip\<close>, \<open>today\<close> is what \<open>new Date().toDateString()\<close>
  returns at the call.  The Boolean is \<open>True\<close> when \<open>next()\<close> is called and \<open>False\<close> when
  the 429 response is sent.  \<open>requestCounts.get(key) || 0\<close> reads an absent key as 0.
\<close>

definition checkRateLimit :: "jsstring \<Rightarrow> jsstring \<Rightarrow> counts \<Rightarrow> bool \<times> counts" where
  "checkRateLimit ip today requestCounts =
     (let key = rate_key ip today;
          count = (case map_of requestCounts key of None \<Rightarrow> 0 | Some n \<Rightarrow> n)
      in if count \<ge> DAILY_LIMIT then (False, requestCounts)
         else (True, AList.update key (count + 1) requestCounts))"

text \<open>
  The body of the \<open>setInterval\<close> callback: a loop over the keys of the map that deletes
  every key in which \<open>today\<close> does not occur.  Deleting the entry under the iterator is
  safe for a JavaScript \<open>Map\<close>, and an iteration deletes no key but its own, so the loop
  visits the keys the map had at the start.
\<close>

definition sweep_step :: "jsstring \<Rightarrow> jsstring \<Rightarrow> counts \<Rightarrow> counts" where
  "sweep_step today key requestCounts =
     (if \<not> str_includes key today then AList.delete key requestCounts else requestCounts)"

definition sweep :: "jsstring \<Rightarrow> counts \<Rightarrow> counts" where
  "sweep today requestCounts = fold (sweep_step today) (map fst requestCounts) requestCounts"

text \<open>
  What the clean-up relies on in the text that \<open>toDateString\<close> returns (for instance
  \<open>Tue Nov 03 2026\<close>): three letters of the weekday, then a space.
\<close>

definition weekday_first :: "jsstring \<Rightarrow> bool" where
  "weekday_first d =
     (3 < length d \<and> d ! 0 \<noteq> 0x20 \<and> d ! 1 \<noteq> 0x20 \<and> d ! 2 \<noteq> 0x20 \<and> d ! 3 = 0x20)"

text \<open>
  What happens to the counter during one calendar day: any interleaving of admission
  checks, by any callers, and runs of the clean-up, all of which read the same \<open>today\<close>.
\<close>

datatype event = Admit jsstring | Sweep

fun run_event :: "jsstring \<Rightarrow> event \<Rightarrow> counts \<Rightarrow> bool \<times> counts" where
  "run_event today (Admit ip) m = checkRateLimit ip today m"
| "run_event today Sweep m = (False, sweep today m)"

fun run_day :: "jsstring \<Rightarrow> event list \<Rightarrow> counts \<Rightarrow> counts" where
  "run_day today [] m = m"
| "run_day today (e # es) m = run_day today es (snd (run_event today e m))"

text \<open>How often \<open>ip\<close> asked during the day, and how often it was let through.\<close>

fun attempts :: "jsstring \<Rightarrow> event list \<Rightarrow> nat" where
  "attempts ip [] = 0"
| "attempts ip (e # es) = (if e = Admit ip then 1 else 0) + attempts ip es"

fun admitted :: "jsstring \<Rightarrow> jsstring \<Rightarrow> event list \<Rightarrow> counts \<Rightarrow> nat" where
  "admitted today ip [] m = 0"
| "admitted today ip (e # es) m =
     (if e = Admit ip \<and> fst (run_event today e m) then 1 else 0)
       + admitted today ip es (snd (run_event today e m))"

definition stored :: "counts \<Rightarrow> jsstring \<Rightarrow> nat" where
  "stored m key = (case map_of m key of None \<Rightarrow> 0 | Some n \<Rightarrow> n)"

section \<open>Extracting tips from the generated text (\<open>parseResponse\<close>)\<close>

text \<open>
  The code units that \<open>String.prototype.trim\<close> removes and that \<open>\s\<close> matches in a
  regular expression: the white space and line terminators of ECMAScript.
\<close>

definition isSpace :: "jschar \<Rightarrow> bool" where
  "isSpace c =
     (c = 0x09 \<or> c = 0x0A \<or> c = 0x0B \<or> c = 0x0C \<or> c = 0x0D \<or> c = 0x20 \<or> c = 0xA0
      \<or> c = 0x1680 \<or> (0x2000 \<le> c \<and> c \<le> 0x200A) \<or> c = 0x2028 \<or> c = 0x2029
      \<or> c = 0x202F \<or> c = 0x205F \<or> c = 0x3000 \<or> c = 0xFEFF)"

text \<open>\<open>\d\<close>: the ASCII digits.\<close>

definition isDigit :: "jschar \<Rightarrow> bool" where
  "isDigit c = (0x30 \<le> c \<and> c \<le> 0x39)"

text \<open>The character class \<open>[-\<bullet>*]\<close>: hyphen-minus, \<open>U+2022\<close>, asterisk.\<close>

definition isBullet :: "jschar \<Rightarrow> bool" where
  "isBullet c = (c = 0x2D \<or> c = 0x2022 \<or> c = 0x2A)"

definition trim :: "jsstring \<Rightarrow> jsstring" where
  "trim s = rev (dropWhile isSpace (rev (dropWhile isSpace s)))"

text \<open>\<open>s.split('\n')\<close>: never empty; the empty string gives one empty line.\<close>

fun split_lines :: "jsstring \<Rightarrow> jsstring list" where
  "split_lines [] = [[]]"
| "split_lines (c # cs) =
     (if c = 0x0A then [] # split_lines cs
      else (case split_lines cs of [] \<Rightarrow> [[c]] | l # ls \<Rightarrow> (c # l) # ls))"

text \<open>
  The two regular expressions, both anchored at the start of the string.  A match
  function returns what is left of the string after the matched prefix, \<open>None\<close> when
  the expression does not match.  \<open>\s+\<close> and \<open>\d+\<close> are greedy and nothing follows
  \<open>\s+\<close>, so the match is the longest one.
\<close>

definition match_bullet :: "jsstring \<Rightarrow> jsstring option" where
  "match_bullet s =
     (case s of
        [] \<Rightarrow> None
      | c # cs \<Rightarrow>
          if isBullet c \<and> takeWhile isSpace cs \<noteq> [] then Some (dropWhile isSpace cs)
          else None)"

definition match_numbered :: "jsstring \<Rightarrow> jsstring option" where
  "match_numbered s =
     (if takeWhile isDigit s = [] then None
      else (case dropWhile isDigit s of
              [] \<Rightarrow> None
            | c # cs \<Rightarrow>
                if c = 0x2E \<and> takeWhile isSpace cs \<noteq> [] then Some (dropWhile isSpace cs)
                else None))"

text \<open>\<open>line.replace(re, '')\<close> for an anchored expression: drop the match, if there is one.\<close>

definition replace_empty :: "(jsstring \<Rightarrow> jsstring option) \<Rightarrow> jsstring \<Rightarrow> jsstring" where
  "replace_empty re s = (case re s of None \<Rightarrow> s | Some rest \<Rightarrow> rest)"

text \<open>One iteration of the \<open>for\<close> loop of \<open>parseResponse\<close>; \<open>tips\<close> is the array built so far.\<close>

definition parse_line :: "jsstring list \<Rightarrow> jsstring \<Rightarrow> jsstring list" where
  "parse_line tips line0 =
     (let line = trim line0 in
      if match_bullet line \<noteq> None \<or> match_numbered line \<noteq> None then
        (let tip = replace_empty match_numbered (replace_empty match_bullet line) in
         if length tip > 10 then tips @ [tip] else tips)
      else tips)"

definition parseResponse :: "jsstring \<Rightarrow> jsstring list" where
  "parseResponse rawResponse = take 10 (foldl parse_line [] (split_lines rawResponse))"

text \<open>
  The reading of the specification, to compare \<open>parseResponse\<close> with: a trimmed line
  qualifies by its bullet marker or else by its numbered marker, and exactly the marker
  it qualified by is stripped.
\<close>

definition strip_marker_spec :: "jsstring \<Rightarrow> jsstring option" where
  "strip_marker_spec line =
     (case match_bullet line of Some rest \<Rightarrow> Some rest | None \<Rightarrow> match_numbered line)"

definition parse_spec :: "jsstring \<Rightarrow> jsstring list" where
  "parse_spec rawText =
     take 10 (filter (\<lambda>tip. length tip > 10)
       (List.map_filter strip_marker_spec (map trim (split_lines rawText))))"

text \<open>
  What the two chained \<open>replace\<close> calls do: after a bullet marker, a numbered marker
  that follows it directly is stripped as well.
\<close>

definition strip_markers :: "jsstring \<Rightarrow> jsstring option" where
  "strip_markers line =
     (case match_bullet line of
        Some rest \<Rightarrow> Some (case match_numbered rest of Some rest' \<Rightarrow> rest' | None \<Rightarrow> rest)
      | None \<Rightarrow> match_numbered line)"

text \<open>
  Two conditions on a text, for comparing \<open>parseResponse\<close> with the specification:
  no line has a numbered marker right after its bullet marker; no line has a marker.
\<close>

definition no_nested_marker :: "jsstring \<Rightarrow> bool" where
  "no_nested_marker rawText =
     list_all (\<lambda>line. case match_bullet (trim line) of
                       None \<Rightarrow> True
                     | Some rest \<Rightarrow> match_numbered rest = None)
       (split_lines rawText)"

definition no_marker_line :: "jsstring \<Rightarrow> bool" where
  "no_marker_line rawText =
     list_all (\<lambda>line. match_bullet (trim line) = None \<and> match_numbered (trim line) = None)
       (split_lines rawText)"

section \<open>Weather advice (\<open>getWeatherRecommendations\<close>)\<close>





















section \<open>Temperature conversion (\<open>convertTemperature\<close>, \<open>getTemperatureDisplay\<close>)\<close>




text \<open>
  A whole number in a template literal.  Up to the magnitude \<open>2^53\<close> every whole
  number is a double, and JavaScript prints all its decimal digits, with a minus sign
  when it is negative.  Beyond that it prints the shortest digits that identify the
  double, and from \<open>10^21\<close> on exponent notation; what it prints there is the
  parameter \<open>large\<close>.
\<close>

fun digits :: "nat \<Rightarrow> jsstring" where
  "digits n = (if n < 10 then [0x30 + of_nat n] else digits (n div 10) @ [0x30 + of_nat (n mod 10)])"

declare digits.simps [simp del]

definition decimal :: "int \<Rightarrow> jsstring" where
  "decimal n = (if n < 0 then 0x2D # digits (nat (- n)) else digits (nat n))"

definition Number_toString :: "(int \<Rightarrow> jsstring) \<Rightarrow> int \<Rightarrow> jsstring" where
  "Number_toString large n = (if \<bar>n\<bar> \<le> 2 ^ 53 then decimal n else large n)"


section \<open>The recommendation pipeline (\<open>/api/explore-destination\<close>)\<close>

text \<open>
  The JSON body of a request.  An absent field is \<open>None\<close>; a string field that is
  present but empty is falsy like an absent one, and so is a group size of 0.

  \<open>clientPreferences\<close> is absent, is \<open>null\<close>, or is a value whose fields can be read (an
  object; of any other value every field reads as absent).  \<open>interests\<close> is an array of
  strings, or a value that is not an array, of which the code sees only whether
  \<open>interests && interests.length > 0\<close> holds, as for a non-empty string.
\<close>

datatype interests_value = Array "jsstring list" | Not_array bool

record preferences =
  budget :: "jsstring option"
  interests :: "interests_value option"
  groupSize :: "nat option"

datatype preferences_value = No_preferences | Null_preferences | Preferences preferences

record request_body =
  destination :: "jsstring option"
  timeOfYear :: "jsstring option"
  clientPreferences :: preferences_value

definition truthy :: "jsstring option \<Rightarrow> bool" where
  "truthy x = (case x of None \<Rightarrow> False | Some s \<Rightarrow> s \<noteq> [])"

text \<open>\<open>Array.prototype.join\<close>.\<close>

fun join :: "jsstring \<Rightarrow> jsstring list \<Rightarrow> jsstring" where
  "join sep [] = []"
| "join sep [x] = x"
| "join sep (x # y # ys) = x @ sep @ join sep (y # ys)"

text \<open>
  What the prompt depends on in the JavaScript engine: the text that a template
  literal prints for a property that an object literal inherits under a given name
  (\<open>constructor\<close>, \<open>toString\<close> and so on; \<open>None\<close> for a name under which it inherits
  nothing), and the text it prints for a whole number above \<open>2^53\<close>.
\<close>

record printing =
  inherited_text :: "jsstring \<Rightarrow> jsstring option"
  large_number_text :: "int \<Rightarrow> jsstring"

text \<open>
  The lookup \<open>budgetText[clientPreferences.budget]\<close> inside the template literal: the
  three keys of the object literal first, then what the object inherits, and
  \<open>undefined\<close>, which the template prints as such, for any other key.
\<close>

definition budgetText :: "(jsstring \<Rightarrow> jsstring option) \<Rightarrow> jsstring \<Rightarrow> jsstring" where
  "budgetText inherited b =
     (if b = js ''low'' then js ''budget-friendly''
      else if b = js ''medium'' then js ''moderately priced''
      else if b = js ''high'' then js ''premium''
      else (case inherited b of Some text \<Rightarrow> text | None \<Rightarrow> js ''undefined''))"

definition prompt_closing :: jsstring where
  "prompt_closing =
     join [0x0A]
       [[], [], js ''Please provide:'',
        js ''1. Top 10 specific activities with brief descriptions'',
        js ''2. Local tips and insights'',
        js ''3. Practical information (costs, timing, how to book)'',
        js ''4. Hidden gems locals recommend'',
        [],
        js ''Format your response clearly with sections and bullet points.'']"

text \<open>
  The messages of the two \<open>TypeError\<close>s that \<open>buildPrompt\<close> can throw: reading \<open>budget\<close>
  of \<open>null\<close>, and calling \<open>join\<close> on a value that has none.
\<close>

definition null_budget_message :: jsstring where
  "null_budget_message =
     js ''Cannot read properties of null (reading '' @ [0x27] @ js ''budget'' @ [0x27] @ js '')''"

definition no_join_message :: jsstring where
  "no_join_message = js ''clientPreferences.interests.join is not a function''"

text \<open>
  \<open>buildPrompt\<close>; its parameters \<open>destination\<close>, \<open>timeOfYear\<close> and
  \<open>clientPreferences\<close> are \<open>dest\<close>, \<open>time\<close> and \<open>prefs0\<close> here.  The default \<open>{}\<close> of the
  last one replaces \<open>undefined\<close> only, so \<open>null\<close> reaches the first read of a field,
  \<open>clientPreferences.budget\<close>, which throws.  Each \<open>prompt +=\<close> is the next \<open>prompt\<close>
  below.  \<open>Inl\<close> is the message of the error thrown, \<open>Inr\<close> the prompt returned.
\<close>

definition buildPrompt ::
  "printing \<Rightarrow> jsstring \<Rightarrow> jsstring option \<Rightarrow> preferences_value \<Rightarrow> jsstring + jsstring" where
  "buildPrompt host dest time prefs0 =
     (let prompt1 = js ''You are a travel expert. Give me detailed activity recommendations for ''
                      @ dest @ js ''.'';
          prompt2 = (case time of
                       Some t \<Rightarrow> if t \<noteq> [] then prompt1 @ js '' The visit is planned for '' @ t @ js ''.''
                                 else prompt1
                     | None \<Rightarrow> prompt1)
      in case prefs0 of
           Null_preferences \<Rightarrow> Inl null_budget_message
         | _ \<Rightarrow>
           (let prefs = (case prefs0 of
                           Preferences p \<Rightarrow> p
                         | _ \<Rightarrow> \<lparr>budget = None, interests = None, groupSize = None\<rparr>);
                prompt3 = (case budget prefs of
                             Some b \<Rightarrow> if b \<noteq> []
                                       then prompt2 @ js '' Focus on ''
                                              @ budgetText (inherited_text host) b
                                              @ js '' activities.''
                                       else prompt2
                           | None \<Rightarrow> prompt2)
            in case interests prefs of
                 Some (Not_array True) \<Rightarrow> Inl no_join_message
               | i \<Rightarrow>
                 (let prompt4 = (case i of
                                   Some (Array xs) \<Rightarrow>
                                     if length xs > 0
                                     then prompt3 @ js '' The traveler is interested in: ''
                                            @ join (js '', '') xs @ js ''.''
                                     else prompt3
                                 | _ \<Rightarrow> prompt3);
                      prompt5 = (case groupSize prefs of
                                   Some n \<Rightarrow>
                                     if n \<noteq> 0
                                     then prompt4 @ js '' This is for a group of ''
                                            @ Number_toString (large_number_text host) (int n)
                                            @ js '' people.''
                                     else prompt4
                                 | None \<Rightarrow> prompt4)
                  in Inr (prompt5 @ prompt_closing))))"

text \<open>
  The generative backend.  \<open>fetch\<close> either rejects (a transport error, with its
  message) or resolves to a response, of which the code reads \<open>ok\<close>, and from the JSON
  body either \<open>error.message\<close> or the content of the first choice.  The world's answer
  to the one request of a run is a function of the credential and the prompt sent.
\<close>

record fetch_response =
  ok :: bool
  error_message :: "jsstring option"
  content :: jsstring

datatype fetch_outcome = Rejected jsstring | Responded fetch_response

type_synonym backend = "jsstring \<Rightarrow> jsstring \<Rightarrow> fetch_outcome"

text \<open>
  \<open>getRecommendations\<close>: \<open>Inl\<close> is the message of the \<open>Error\<close> thrown, \<open>Inr\<close> the text
  returned.  The second component lists the outbound calls made, each with the
  credential and the prompt it carried.  \<open>key\<close> is \<open>process.env.OPENAI_API_KEY\<close>.
\<close>

definition getRecommendations ::
  "jsstring option \<Rightarrow> backend \<Rightarrow> jsstring \<Rightarrow> (jsstring + jsstring) \<times> (jsstring \<times> jsstring) list" where
  "getRecommendations key fetch prompt =
     (if \<not> truthy key then (Inl (js ''OpenAI API key not configured''), [])
      else
        (let k = (case key of Some k' \<Rightarrow> k' | None \<Rightarrow> []) in
         case fetch k prompt of
           Rejected msg \<Rightarrow> (Inl msg, [(k, prompt)])
         | Responded response \<Rightarrow>
             if \<not> ok response then
               (Inl (if truthy (error_message response)
                     then (case error_message response of Some m \<Rightarrow> m | None \<Rightarrow> [])
                     else js ''OpenAI API error''),
                [(k, prompt)])
             else (Inr (content response), [(k, prompt)])))"

text \<open>What the service answers: a status and a JSON body.\<close>

datatype body =
  Error_body jsstring "jsstring option"
| Data_body "jsstring list" jsstring

record http_response =
  status :: nat
  body :: body

definition fallback_tips :: "jsstring list" where
  "fallback_tips =
     [js ''Visit the main tourist information center'',
      js ''Ask your hotel concierge for local recommendations'',
      js ''Check local event calendars for festivals'',
      js ''Try local restaurants recommended by residents'',
      js ''Explore nearby neighborhoods on foot'']"

text \<open>
  The \<open>catch\<close> block of the handler: the answer to an error with the given message.
\<close>

definition catch_answer :: "jsstring \<Rightarrow> http_response" where
  "catch_answer msg =
     (if str_includes msg (js ''API key'') then
        \<lparr>status = 500, body = Error_body (js ''Service configuration error'') None\<rparr>
      else
        \<lparr>status = 500, body = Error_body (js ''Failed to get recommendations'') (Some msg)\<rparr>)"

text \<open>
  The \<open>async\<close> handler of the route, with its \<open>try\<close> and \<open>catch\<close>: the answer, and the
  outbound calls made on the way.
\<close>

definition explore_handler ::
  "jsstring option \<Rightarrow> backend \<Rightarrow> printing \<Rightarrow> request_body
     \<Rightarrow> http_response \<times> (jsstring \<times> jsstring) list" where
  "explore_handler key fetch host req =
     (if \<not> truthy (destination req) then
        (\<lparr>status = 400, body = Error_body (js ''Destination is required'') None\<rparr>, [])
      else
        (let dest = (case destination req of Some d \<Rightarrow> d | None \<Rightarrow> [])
         in case buildPrompt host dest (timeOfYear req) (clientPreferences req) of
              Inl msg \<Rightarrow> (catch_answer msg, [])
            | Inr prompt \<Rightarrow>
                (let (result, calls) = getRecommendations key fetch prompt
                 in case result of
                      Inl msg \<Rightarrow> (catch_answer msg, calls)
                    | Inr rawResponse \<Rightarrow>
                        (let generalTips = parseResponse rawResponse;
                             generalTips' = (if length generalTips < 5
                                             then generalTips @ fallback_tips
                                             else generalTips)
                         in (\<lparr>status = 200, body = Data_body generalTips' rawResponse\<rparr>,
                             calls)))))"

text \<open>
  The route: \<open>checkRateLimit\<close> is its first middleware and the handler runs when the
  middleware calls \<open>next()\<close>.  The result is the answer, the counter afterwards, and the
  outbound calls.
\<close>

definition explore_destination ::
  "jsstring \<Rightarrow> jsstring \<Rightarrow> jsstring option \<Rightarrow> backend \<Rightarrow> printing \<Rightarrow> request_body \<Rightarrow> counts
     \<Rightarrow> http_response \<times> counts \<times> (jsstring \<times> jsstring) list" where
  "explore_destination ip today key fetch host req requestCounts =
     (case checkRateLimit ip today requestCounts of
        (False, m) \<Rightarrow>
          (\<lparr>status = 429, body = Error_body (js ''Daily limit reached - try again tomorrow'') None\<rparr>,
           m, [])
      | (True, m) \<Rightarrow>
          (let (response, calls) = explore_handler key fetch host req in (response, m, calls)))"

section \<open>Test inputs\<close>

text \<open>
  A request for Paris, the same with \<open>clientPreferences: null\<close>, a request without
  destination, an engine, a backend that answers every request with a given text, one
  that refuses every request with a given message, and an answer with three tips.
\<close>

definition paris :: request_body where
  "paris = \<lparr>destination = Some (js ''Paris''), timeOfYear = None,
            clientPreferences = No_preferences\<rparr>"


definition no_destination :: request_body where
  "no_destination = \<lparr>destination = None, timeOfYear = None, clientPreferences = No_preferences\<rparr>"

definition engine :: printing where
  "engine = \<lparr>inherited_text = (\<lambda>name. None), large_number_text = (\<lambda>n. [])\<rparr>"

definition answers_with :: "jsstring \<Rightarrow> backend" where
  "answers_with text = (\<lambda>k p. Responded \<lparr>ok = True, error_message = None, content = text\<rparr>)"

definition refuses_with :: "jsstring \<Rightarrow> backend" where
  "refuses_with msg = (\<lambda>k p. Responded \<lparr>ok = False, error_message = Some msg, content = []\<rparr>)"

definition three_tips :: jsstring where
  "three_tips = js ''1. Visit the old town\<newline>- See the cathedral\<newline>* Walk along the river''"

section \<open>Properties of the request counter\<close>

lemma str_includes_iff: "str_includes s sub \<longleftrightarrow> (\<exists>p q. s = p @ sub @ q)"
proof (induction s)
  case Nil
  then show ?case by auto
next
  case (Cons c cs)
  show ?case
  proof
    assume "str_includes (c # cs) sub"
    then consider "prefix sub (c # cs)" | "str_includes cs sub" by auto
    then show "\<exists>p q. c # cs = p @ sub @ q"
    proof cases
      case 1
      then obtain q where "c # cs = sub @ q" by (auto simp: prefix_def)
      then have "c # cs = [] @ sub @ q" by simp
      then show ?thesis by blast
    next
      case 2
      with Cons.IH obtain p q where "cs = p @ sub @ q" by blast
      then have "c # cs = (c # p) @ sub @ q" by simp
      then show ?thesis by blast
    qed
  next
    assume "\<exists>p q. c # cs = p @ sub @ q"
    then obtain p q where pq: "c # cs = p @ sub @ q" by blast
    show "str_includes (c # cs) sub"
    proof (cases p)
      case Nil
      with pq have "prefix sub (c # cs)" by (simp add: prefix_def)
      then show ?thesis by simp
    next
      case (Cons a p')
      with pq have "cs = p' @ sub @ q" by simp
      with Cons.IH have "str_includes cs sub" by blast
      then show ?thesis by simp
    qed
  qed
qed

lemma str_includes_rate_key: "str_includes (rate_key ip today) today"
proof -
  have "rate_key ip today = (ip @ js ''-'') @ today @ []" by (simp add: rate_key_def)
  then show ?thesis unfolding str_includes_iff by blast
qed

lemma rate_key_inject: "rate_key ip today = rate_key ip' today \<longleftrightarrow> ip = ip'"
  by (simp add: rate_key_def)

lemma map_of_fold_sweep_step:
  "map_of (fold (sweep_step today) ks m) k =
     (if k \<in> set ks \<and> \<not> str_includes k today then None else map_of m k)"
proof (induction ks arbitrary: m)
  case Nil
  then show ?case by simp
next
  case (Cons a ks)
  have "map_of (sweep_step today a m) k =
          (if k = a \<and> \<not> str_includes k today then None else map_of m k)"
    by (auto simp: sweep_step_def delete_conv)
  then show ?case
    by (auto simp: Cons.IH)
qed

lemma map_of_sweep:
  "map_of (sweep today m) k = (if str_includes k today then map_of m k else None)"
proof (cases "k \<in> set (map fst m)")
  case True
  then show ?thesis by (simp add: sweep_def map_of_fold_sweep_step)
next
  case False
  then have "map_of m k = None" by (simp add: map_of_eq_None_iff)
  then show ?thesis by (simp add: sweep_def map_of_fold_sweep_step)
qed

lemma stored_sweep_today: "stored (sweep today m) (rate_key ip today) = stored m (rate_key ip today)"
  by (simp add: stored_def map_of_sweep str_includes_rate_key)

lemma stored_checkRateLimit:
  "stored (snd (checkRateLimit i today m)) (rate_key ip today) =
     (if i = ip \<and> fst (checkRateLimit i today m)
      then stored m (rate_key ip today) + 1 else stored m (rate_key ip today))"
  by (auto simp: checkRateLimit_def stored_def Let_def update_conv rate_key_inject
      split: option.splits)

lemma fst_checkRateLimit:
  "fst (checkRateLimit ip today m) \<longleftrightarrow> stored m (rate_key ip today) < DAILY_LIMIT"
  by (auto simp: checkRateLimit_def stored_def Let_def split: option.splits)

lemma stored_run_event:
  "stored (snd (run_event today e m)) (rate_key ip today) =
     stored m (rate_key ip today) + (if e = Admit ip \<and> fst (run_event today e m) then 1 else 0)"
  by (cases e) (auto simp: stored_checkRateLimit stored_sweep_today)

lemma stored_run_day:
  "stored (run_day today es m) (rate_key ip today) =
     stored m (rate_key ip today) + admitted today ip es m"
  by (induction es arbitrary: m) (simp_all add: stored_run_event)

lemma admitted_bound:
  "stored m (rate_key ip today) + admitted today ip es m
     \<le> max DAILY_LIMIT (stored m (rate_key ip today))"
proof (induction es arbitrary: m)
  case Nil
  then show ?case by simp
next
  case (Cons e es)
  let ?m' = "snd (run_event today e m)"
  let ?k = "rate_key ip today"
  show ?case
  proof (cases "e = Admit ip \<and> fst (run_event today e m)")
    case True
    then have "fst (checkRateLimit ip today m)" by auto
    then have lt: "stored m ?k < DAILY_LIMIT" by (simp add: fst_checkRateLimit)
    from True stored_run_event [of today e m ip]
    have st: "stored ?m' ?k = stored m ?k + 1" by auto
    from Cons.IH [of ?m'] st lt True show ?thesis by simp
  next
    case False
    then have st: "stored ?m' ?k = stored m ?k" by (simp add: stored_run_event)
    from Cons.IH [of ?m'] st False show ?thesis by auto
  qed
qed

lemma stored_after_attempts:
  "min DAILY_LIMIT (stored m (rate_key ip today) + attempts ip es)
     \<le> stored (run_day today es m) (rate_key ip today)"
proof (induction es arbitrary: m)
  case Nil
  then show ?case by simp
next
  case (Cons e es)
  let ?m' = "snd (run_event today e m)"
  let ?k = "rate_key ip today"
  show ?case
  proof (cases "e = Admit ip")
    case True
    show ?thesis
    proof (cases "fst (run_event today e m)")
      case yes: True
      with True stored_run_event [of today e m ip]
      have "stored ?m' ?k = stored m ?k + 1" by simp
      with Cons.IH [of ?m'] True show ?thesis by simp
    next
      case no: False
      with True have "\<not> fst (checkRateLimit ip today m)" by auto
      then have ge: "DAILY_LIMIT \<le> stored m ?k" by (simp add: fst_checkRateLimit)
      from no have "stored ?m' ?k = stored m ?k" by (simp add: stored_run_event)
      with ge have "DAILY_LIMIT \<le> stored ?m' ?k" by simp
      moreover have "stored ?m' ?k \<le> stored (run_day today es ?m') ?k"
        by (simp add: stored_run_day)
      ultimately show ?thesis by simp
    qed
  next
    case False
    then have "stored ?m' ?k = stored m ?k" by (simp add: stored_run_event)
    with Cons.IH [of ?m'] False show ?thesis by simp
  qed
qed

lemma attempts_replicate: "attempts ip (replicate n (Admit ip)) = n"
  by (induction n) simp_all

text \<open>
  Claim C1.  During one calendar day, whatever the counter held at its start and however
  the admission checks of all callers and the runs of the clean-up interleave, a caller
  is let through at most 60 times; once it has asked 60 times, its next check (the
  61st or a later one) is refused; and a refused check returns the counter as it was.
\<close>

theorem C1_daily_limit:
  "admitted today ip es m \<le> 60
   \<and> (60 \<le> attempts ip es \<longrightarrow> \<not> fst (checkRateLimit ip today (run_day today es m)))
   \<and> (\<not> fst (checkRateLimit ip today m) \<longrightarrow> snd (checkRateLimit ip today m) = m)"
proof (intro conjI impI)
  have "stored m (rate_key ip today) + admitted today ip es m
          \<le> max DAILY_LIMIT (stored m (rate_key ip today))"
    by (rule admitted_bound)
  then show "admitted today ip es m \<le> 60"
    by (simp add: DAILY_LIMIT_def max_def split: if_splits)
next
  assume "60 \<le> attempts ip es"
  then have "min DAILY_LIMIT (stored m (rate_key ip today) + attempts ip es) = DAILY_LIMIT"
    by (simp add: DAILY_LIMIT_def)
  with stored_after_attempts [of m ip today es]
  have "DAILY_LIMIT \<le> stored (run_day today es m) (rate_key ip today)" by simp
  then show "\<not> fst (checkRateLimit ip today (run_day today es m))"
    by (simp add: fst_checkRateLimit)
next
  assume "\<not> fst (checkRateLimit ip today m)"
  then show "snd (checkRateLimit ip today m) = m"
    by (auto simp: checkRateLimit_def Let_def split: if_splits)
qed

theorem C1_daily_limit_witness:
  "60 \<le> attempts (js ''::1'') (replicate 60 (Admit (js ''::1'')))
   \<and> \<not> fst (checkRateLimit (js ''::1'') (js ''Tue Nov 03 2026'')
          (run_day (js ''Tue Nov 03 2026'') (replicate 60 (Admit (js ''::1''))) []))
   \<and> \<not> fst (checkRateLimit (js ''::1'') (js ''Tue Nov 03 2026'')
          [(rate_key (js ''::1'') (js ''Tue Nov 03 2026''), 60)])
   \<and> snd (checkRateLimit (js ''::1'') (js ''Tue Nov 03 2026'')
          [(rate_key (js ''::1'') (js ''Tue Nov 03 2026''), 60)])
       = [(rate_key (js ''::1'') (js ''Tue Nov 03 2026''), 60)]"
proof -
  have a: "60 \<le> attempts (js ''::1'') (replicate 60 (Admit (js ''::1'')))"
    by (simp add: attempts_replicate)
  have b: "\<not> fst (checkRateLimit (js ''::1'') (js ''Tue Nov 03 2026'')
          [(rate_key (js ''::1'') (js ''Tue Nov 03 2026''), 60)])"
    by (simp add: checkRateLimit_def DAILY_LIMIT_def)
  from a b
    C1_daily_limit [of "js ''Tue Nov 03 2026''" "js ''::1''"
      "replicate 60 (Admit (js ''::1''))" "[]"]
    C1_daily_limit [of "js ''Tue Nov 03 2026''" "js ''::1''" "[]"
      "[(rate_key (js ''::1'') (js ''Tue Nov 03 2026''), 60)]"]
  show ?thesis by blast
qed

lemma sweep_step_filter:
  "sweep_step today a m = filter (\<lambda>(k, n). k \<noteq> a \<or> str_includes k today) m"
proof (cases "str_includes a today")
  case True
  then have "filter (\<lambda>(k, n). k \<noteq> a \<or> str_includes k today) m = m"
    by (intro filter_True) auto
  with True show ?thesis by (simp add: sweep_step_def)
next
  case False
  have "AList.delete a m = filter (\<lambda>(k, n). k \<noteq> a \<or> str_includes k today) m"
    unfolding AList.delete_eq using False by (intro filter_cong) auto
  with False show ?thesis by (simp add: sweep_step_def)
qed

lemma fold_sweep_step_filter:
  "fold (sweep_step today) ks m = filter (\<lambda>(k, n). k \<notin> set ks \<or> str_includes k today) m"
proof (induction ks arbitrary: m)
  case Nil
  then show ?case by simp
next
  case (Cons a ks)
  have "fold (sweep_step today) (a # ks) m
          = filter (\<lambda>(k, n). k \<notin> set ks \<or> str_includes k today)
              (filter (\<lambda>(k, n). k \<noteq> a \<or> str_includes k today) m)"
    by (simp add: Cons.IH sweep_step_filter)
  also have "\<dots> = filter (\<lambda>(k, n). k \<notin> set (a # ks) \<or> str_includes k today) m"
    by (auto intro: filter_cong)
  finally show ?case .
qed

lemma sweep_filter: "sweep today m = filter (\<lambda>(k, n). str_includes k today) m"
  unfolding sweep_def fold_sweep_step_filter
  by (rule filter_cong) force+

lemma stale_key_lacks_today:
  assumes ip: "0x20 \<notin> set ip"
    and d: "weekday_first day" and t: "weekday_first today"
    and len: "length day = length today" and ne: "day \<noteq> today"
  shows "\<not> str_includes (rate_key ip day) today"
proof
  assume "str_includes (rate_key ip day) today"
  then obtain p q where eq: "ip @ [0x2D] @ day = p @ today @ q"
    by (auto simp: str_includes_iff rate_key_def js_def)
  from eq have "length (ip @ [0x2D] @ day) = length (p @ today @ q)" by simp
  with len have lens: "length ip + 1 = length p + length q" by simp
  from t have t3: "3 < length today" and sp: "today ! 3 = 0x20" by (simp_all add: weekday_first_def)
  have at: "(p @ today @ q) ! (length p + 3) = 0x20"
    using t3 sp by (simp add: nth_append)
  show False
  proof (cases "length p \<le> length ip")
    case True
    let ?i = "length p + 3"
    consider "?i < length ip" | "?i = length ip" | "length ip < ?i" by linarith
    then show False
    proof cases
      case 1
      then have "(ip @ [0x2D] @ day) ! ?i = ip ! ?i" by (simp add: nth_append)
      with eq at have "ip ! ?i = 0x20" by simp
      with 1 ip show False by (metis nth_mem)
    next
      case 2
      then have "(ip @ [0x2D] @ day) ! ?i = (0x2D :: jschar)" by (simp add: nth_append)
      with eq at show False by simp
    next
      case 3
      define j where "j = ?i - length ip - 1"
      from 3 True have j: "j \<le> 2" and i: "?i = length ip + 1 + j" by (simp_all add: j_def)
      from d len t3 have "j < length day" using j by simp
      have "(ip @ [0x2D] @ day) ! ?i = day ! j" unfolding i by (simp add: nth_append)
      with eq at have "day ! j = 0x20" by simp
      moreover from j consider "j = 0" | "j = 1" | "j = 2" by linarith
      ultimately show False using d by cases (auto simp: weekday_first_def)
    qed
  next
    case False
    with lens have "length p = length ip + 1" and "length q = 0" by linarith+
    then have "length p = length ip + 1" and "q = []" by simp_all
    with eq have "ip @ [0x2D] @ day = p @ today" by simp
    with len have "day = today" by (metis append_assoc append_eq_append_conv)
    with ne show False by simp
  qed
qed

text \<open>
  Claim C8.  The keys of the counter are written by \<open>checkRateLimit\<close> alone, from the
  caller's address (which has no space in it) and the text of a day as \<open>toDateString\<close>
  returns it.  For every such key and every state of the counter, a run of the
  clean-up removes the key when its day is not the current day and keeps it, with its
  count, when it is; a key of the current day is kept whatever the caller part is.
  The clean-up decides by a substring test: it keeps exactly the entries in whose key
  the text of the current day occurs, in their order.
\<close>

theorem C8_sweep_by_day:
  "(0x20 \<notin> set ip \<and> weekday_first day \<and> weekday_first today \<and> length day = length today
      \<longrightarrow> map_of (sweep today m) (rate_key ip day)
            = (if day = today then map_of m (rate_key ip day) else None))
   \<and> map_of (sweep today m) (rate_key ip today) = map_of m (rate_key ip today)
   \<and> sweep today m = filter (\<lambda>(key, n). str_includes key today) m"
proof (intro conjI impI)
  show "sweep today m = filter (\<lambda>(key, n). str_includes key today) m"
    by (rule sweep_filter)
  show "map_of (sweep today m) (rate_key ip today) = map_of m (rate_key ip today)"
    by (simp add: map_of_sweep str_includes_rate_key)
next
  assume h: "0x20 \<notin> set ip \<and> weekday_first day \<and> weekday_first today
        \<and> length day = length today"
  show "map_of (sweep today m) (rate_key ip day)
            = (if day = today then map_of m (rate_key ip day) else None)"
  proof (cases "day = today")
    case True
    then show ?thesis by (simp add: map_of_sweep str_includes_rate_key)
  next
    case False
    with h have "\<not> str_includes (rate_key ip day) today"
      by (simp add: stale_key_lacks_today)
    with False show ?thesis by (simp add: map_of_sweep)
  qed
qed

theorem C8_sweep_by_day_witness:
  "0x20 \<notin> set (js ''::1'') \<and> weekday_first (js ''Mon Nov 02 2026'')
   \<and> weekday_first (js ''Tue Nov 03 2026'')
   \<and> length (js ''Mon Nov 02 2026'') = length (js ''Tue Nov 03 2026'')
   \<and> js ''Mon Nov 02 2026'' \<noteq> js ''Tue Nov 03 2026''
   \<and> map_of (sweep (js ''Tue Nov 03 2026'')
               [(rate_key (js ''::1'') (js ''Mon Nov 02 2026''), 7),
                (rate_key (js ''::1'') (js ''Tue Nov 03 2026''), 2)])
        (rate_key (js ''::1'') (js ''Mon Nov 02 2026'')) = None
   \<and> map_of (sweep (js ''Tue Nov 03 2026'')
               [(rate_key (js ''::1'') (js ''Mon Nov 02 2026''), 7),
                (rate_key (js ''::1'') (js ''Tue Nov 03 2026''), 2)])
        (rate_key (js ''::1'') (js ''Tue Nov 03 2026'')) = Some 2"
proof -
  let ?m = "[(rate_key (js ''::1'') (js ''Mon Nov 02 2026''), 7::nat),
             (rate_key (js ''::1'') (js ''Tue Nov 03 2026''), 2)]"
  have h: "0x20 \<notin> set (js ''::1'')" "weekday_first (js ''Mon Nov 02 2026'')"
    "weekday_first (js ''Tue Nov 03 2026'')"
    "length (js ''Mon Nov 02 2026'') = length (js ''Tue Nov 03 2026'')"
    "js ''Mon Nov 02 2026'' \<noteq> js ''Tue Nov 03 2026''"
    by (simp_all add: js_def weekday_first_def)
  have l: "map_of ?m (rate_key (js ''::1'') (js ''Tue Nov 03 2026'')) = Some 2"
    by (simp add: rate_key_def js_def)
  from h l
    C8_sweep_by_day [of "js ''::1''" "js ''Mon Nov 02 2026''" "js ''Tue Nov 03 2026''" ?m]
    C8_sweep_by_day [of "js ''::1''" "js ''Tue Nov 03 2026''" "js ''Tue Nov 03 2026''" ?m]
  show ?thesis by simp
qed

section \<open>Properties of the weather advice\<close>




















section \<open>Properties of the temperature conversion\<close>







lemma Number_toString_minus_40: "Number_toString large (- 40) = js ''-40''"
  by (simp add: Number_toString_def decimal_def digits.simps js_def)



section \<open>Properties of \<open>parseResponse\<close>\<close>

text \<open>What the two match functions accept, and what they leave.\<close>

lemma drop_spaces_id: "rest = [] \<or> \<not> isSpace (hd rest) \<Longrightarrow> dropWhile isSpace rest = rest"
  by (cases rest) auto

lemma match_bullet_Some_iff:
  "match_bullet s = Some rest \<longleftrightarrow>
     (\<exists>b ws. s = b # ws @ rest \<and> isBullet b \<and> ws \<noteq> [] \<and> (\<forall>c \<in> set ws. isSpace c)
        \<and> (rest = [] \<or> \<not> isSpace (hd rest)))"
proof
  assume m: "match_bullet s = Some rest"
  then obtain b cs where s: "s = b # cs" by (cases s) (auto simp: match_bullet_def)
  with m have b: "isBullet b" and ne: "takeWhile isSpace cs \<noteq> []"
    and rest: "rest = dropWhile isSpace cs"
    by (auto simp: match_bullet_def split: if_splits)
  have "s = b # takeWhile isSpace cs @ rest" by (simp add: s rest)
  moreover have "\<forall>c \<in> set (takeWhile isSpace cs). isSpace c" by (auto dest: set_takeWhileD)
  moreover have "rest = [] \<or> \<not> isSpace (hd rest)" unfolding rest
    by (cases "dropWhile isSpace cs = []") (simp_all add: hd_dropWhile)
  ultimately show "\<exists>b ws. s = b # ws @ rest \<and> isBullet b \<and> ws \<noteq> [] \<and> (\<forall>c \<in> set ws. isSpace c)
        \<and> (rest = [] \<or> \<not> isSpace (hd rest))"
    using b ne by blast
next
  assume "\<exists>b ws. s = b # ws @ rest \<and> isBullet b \<and> ws \<noteq> [] \<and> (\<forall>c \<in> set ws. isSpace c)
        \<and> (rest = [] \<or> \<not> isSpace (hd rest))"
  then obtain b ws where s: "s = b # ws @ rest" and b: "isBullet b" and ne: "ws \<noteq> []"
    and ws: "\<forall>c \<in> set ws. isSpace c" and r: "rest = [] \<or> \<not> isSpace (hd rest)"
    by blast
  from ws have "takeWhile isSpace (ws @ rest) = ws @ takeWhile isSpace rest"
    and "dropWhile isSpace (ws @ rest) = dropWhile isSpace rest"
    by simp_all
  with ne b drop_spaces_id [OF r] show "match_bullet s = Some rest"
    by (simp add: match_bullet_def s)
qed

lemma not_digit_dot: "\<not> isDigit 0x2E"
  by (simp add: isDigit_def)

lemma match_numbered_Some_iff:
  "match_numbered s = Some rest \<longleftrightarrow>
     (\<exists>ds ws. s = ds @ 0x2E # ws @ rest \<and> ds \<noteq> [] \<and> (\<forall>c \<in> set ds. isDigit c)
        \<and> ws \<noteq> [] \<and> (\<forall>c \<in> set ws. isSpace c) \<and> (rest = [] \<or> \<not> isSpace (hd rest)))"
proof
  assume m: "match_numbered s = Some rest"
  let ?ds = "takeWhile isDigit s"
  from m have ds: "?ds \<noteq> []" by (auto simp: match_numbered_def split: if_splits)
  with m obtain c cs where d: "dropWhile isDigit s = c # cs"
    by (cases "dropWhile isDigit s") (auto simp: match_numbered_def)
  with m ds have c: "c = 0x2E" and ne: "takeWhile isSpace cs \<noteq> []"
    and rest: "rest = dropWhile isSpace cs"
    by (auto simp: match_numbered_def split: if_splits)
  have "s = ?ds @ dropWhile isDigit s" by simp
  then have "s = ?ds @ 0x2E # takeWhile isSpace cs @ rest" by (simp add: d c rest)
  moreover have "\<forall>c \<in> set ?ds. isDigit c" by (auto dest: set_takeWhileD)
  moreover have "\<forall>c \<in> set (takeWhile isSpace cs). isSpace c" by (auto dest: set_takeWhileD)
  moreover have "rest = [] \<or> \<not> isSpace (hd rest)" unfolding rest
    by (cases "dropWhile isSpace cs = []") (simp_all add: hd_dropWhile)
  ultimately show "\<exists>ds ws. s = ds @ 0x2E # ws @ rest \<and> ds \<noteq> [] \<and> (\<forall>c \<in> set ds. isDigit c)
        \<and> ws \<noteq> [] \<and> (\<forall>c \<in> set ws. isSpace c) \<and> (rest = [] \<or> \<not> isSpace (hd rest))"
    using ds ne by blast
next
  assume "\<exists>ds ws. s = ds @ 0x2E # ws @ rest \<and> ds \<noteq> [] \<and> (\<forall>c \<in> set ds. isDigit c)
        \<and> ws \<noteq> [] \<and> (\<forall>c \<in> set ws. isSpace c) \<and> (rest = [] \<or> \<not> isSpace (hd rest))"
  then obtain ds ws where s: "s = ds @ 0x2E # ws @ rest" and dne: "ds \<noteq> []"
    and ds: "\<forall>c \<in> set ds. isDigit c" and ne: "ws \<noteq> []"
    and ws: "\<forall>c \<in> set ws. isSpace c" and r: "rest = [] \<or> \<not> isSpace (hd rest)"
    by blast
  from ds have t: "takeWhile isDigit s = ds" and d: "dropWhile isDigit s = 0x2E # ws @ rest"
    by (simp_all add: s not_digit_dot)
  from ws have "takeWhile isSpace (ws @ rest) = ws @ takeWhile isSpace rest"
    and "dropWhile isSpace (ws @ rest) = dropWhile isSpace rest"
    by simp_all
  with ne dne drop_spaces_id [OF r] show "match_numbered s = Some rest"
    by (simp add: match_numbered_def t d)
qed

lemma parse_line_eq:
  "parse_line tips line =
     tips @ (case strip_markers (trim line) of
               None \<Rightarrow> []
             | Some tip \<Rightarrow> if length tip > 10 then [tip] else [])"
  by (auto simp: parse_line_def strip_markers_def replace_empty_def Let_def split: option.splits)

lemma foldl_parse_line:
  "foldl parse_line tips ls =
     tips @ filter (\<lambda>tip. length tip > 10) (List.map_filter strip_markers (map trim ls))"
  by (induction ls arbitrary: tips)
     (simp_all add: parse_line_eq split: option.splits)

lemma parseResponse_eq:
  "parseResponse raw =
     take 10 (filter (\<lambda>tip. length tip > 10)
       (List.map_filter strip_markers (map trim (split_lines raw))))"
  by (simp add: parseResponse_def foldl_parse_line)

lemma map_filter_cong_set:
  "(\<And>x. x \<in> set xs \<Longrightarrow> f x = g x) \<Longrightarrow> List.map_filter f xs = List.map_filter g xs"
  by (induction xs) (auto split: option.splits)

lemma map_filter_all_None:
  "(\<And>x. x \<in> set xs \<Longrightarrow> f x = None) \<Longrightarrow> List.map_filter f xs = []"
  by (induction xs) (auto split: option.splits)


lemmas parse_eval =
  parseResponse_def parse_line_def replace_empty_def match_bullet_def match_numbered_def
  trim_def isSpace_def isDigit_def isBullet_def js_def Let_def

lemma parse_bullet_U2022:
  "parseResponse ([0x2022, 0x20] @ js ''Stroll through the market'')
     = [js ''Stroll through the market'']"
  by (simp add: parse_eval)

text \<open>
  Claim C6, as the code has it.  \<open>parseResponse\<close> returns, in line order, the first
  ten at most of the tips longer than 10 code units, where the tip of a trimmed line is
  the line without its bullet marker and without the numbered marker that then starts
  it, if any.  On a text where no bullet marker is followed directly by a numbered
  marker this is the reading of the specification (exactly the matched marker is
  stripped); a text without marker lines gives the empty list; and the test vector of
  the specification holds.
\<close>

theorem C6_parse:
  "parseResponse raw =
     take 10 (filter (\<lambda>tip. length tip > 10)
       (List.map_filter strip_markers (map trim (split_lines raw))))
   \<and> (no_nested_marker raw \<longrightarrow> parseResponse raw = parse_spec raw)
   \<and> (no_marker_line raw \<longrightarrow> parseResponse raw = [])
   \<and> length (parseResponse raw) \<le> 10
   \<and> list_all (\<lambda>tip. length tip > 10) (parseResponse raw)
   \<and> parseResponse (js ''1. Visit the old town\<newline>- See the cathedral\<newline>* ok'')
       = [js ''Visit the old town'', js ''See the cathedral'']"
proof (intro conjI impI)
  show "parseResponse raw =
     take 10 (filter (\<lambda>tip. length tip > 10)
       (List.map_filter strip_markers (map trim (split_lines raw))))"
    by (rule parseResponse_eq)
  show "length (parseResponse raw) \<le> 10"
    by (simp add: parseResponse_def)
  show "list_all (\<lambda>tip. length tip > 10) (parseResponse raw)"
    unfolding parseResponse_eq list_all_iff by (auto dest: in_set_takeD)
  show "parseResponse (js ''1. Visit the old town\<newline>- See the cathedral\<newline>* ok'')
       = [js ''Visit the old town'', js ''See the cathedral'']"
    by (simp add: parse_eval)
next
  assume "no_nested_marker raw"
  then have "\<And>l. l \<in> set (map trim (split_lines raw)) \<Longrightarrow> strip_markers l = strip_marker_spec l"
    by (auto simp: no_nested_marker_def list_all_iff strip_markers_def strip_marker_spec_def
        split: option.splits)
  then have "List.map_filter strip_markers (map trim (split_lines raw))
               = List.map_filter strip_marker_spec (map trim (split_lines raw))"
    by (rule map_filter_cong_set)
  then show "parseResponse raw = parse_spec raw"
    by (simp add: parseResponse_eq parse_spec_def)
next
  assume "no_marker_line raw"
  then have "\<And>l. l \<in> set (map trim (split_lines raw)) \<Longrightarrow> strip_markers l = None"
    by (auto simp: no_marker_line_def list_all_iff strip_markers_def)
  then have "List.map_filter strip_markers (map trim (split_lines raw)) = []"
    by (rule map_filter_all_None)
  then show "parseResponse raw = []"
    by (simp add: parseResponse_eq)
qed

theorem C6_parse_witness:
  "no_nested_marker (js ''1. Visit the old town\<newline>- See the cathedral\<newline>* ok'')
   \<and> parseResponse (js ''1. Visit the old town\<newline>- See the cathedral\<newline>* ok'')
       = parse_spec (js ''1. Visit the old town\<newline>- See the cathedral\<newline>* ok'')
   \<and> no_marker_line (js ''Paris is lovely in spring'')
   \<and> parseResponse (js ''Paris is lovely in spring'') = []"
proof -
  have a: "no_nested_marker (js ''1. Visit the old town\<newline>- See the cathedral\<newline>* ok'')"
    by (simp add: no_nested_marker_def match_bullet_def match_numbered_def trim_def isSpace_def
        isDigit_def isBullet_def js_def)
  have b: "no_marker_line (js ''Paris is lovely in spring'')"
    by (simp add: no_marker_line_def match_bullet_def match_numbered_def trim_def isSpace_def
        isDigit_def isBullet_def js_def)
  from a b
    C6_parse [of "js ''1. Visit the old town\<newline>- See the cathedral\<newline>* ok''"]
    C6_parse [of "js ''Paris is lovely in spring''"]
  show ?thesis by blast
qed

text \<open>
  The claim as stated fails on a line with both markers: the line qualifies by its
  bullet, the specification strips the bullet marker only, and the code strips the
  numbered marker too, which can also take the tip below the length limit.
\<close>

theorem C6_both_markers_stripped:
  "parseResponse (js ''- 1. Walk the old town'') = [js ''Walk the old town'']
   \<and> parse_spec (js ''- 1. Walk the old town'') = [js ''1. Walk the old town'']
   \<and> parseResponse (js ''- 1. abcdefgh'') = []
   \<and> parse_spec (js ''- 1. abcdefgh'') = [js ''1. abcdefgh'']"
  by (simp add: parse_eval parse_spec_def strip_marker_spec_def)

section \<open>Properties of the recommendation pipeline\<close>


lemma getRecommendations_responded:
  "k \<noteq> [] \<Longrightarrow> fetch k prompt = Responded r \<Longrightarrow>
   getRecommendations (Some k) fetch prompt =
     (if \<not> ok r
      then Inl (if truthy (error_message r) then (case error_message r of Some m \<Rightarrow> m | None \<Rightarrow> [])
                else js ''OpenAI API error'')
      else Inr (content r),
      [(k, prompt)])"
  by (simp add: getRecommendations_def truthy_def)



lemma buildPrompt_plain:
  "buildPrompt host d None No_preferences
     = Inr (js ''You are a travel expert. Give me detailed activity recommendations for ''
              @ d @ js ''.'' @ prompt_closing)"
  by (simp add: buildPrompt_def Let_def)




lemma explore_handler_built:
  assumes "destination req = Some d" and "d \<noteq> []"
    and "buildPrompt host d (timeOfYear req) (clientPreferences req) = Inr prompt"
  shows "explore_handler key fetch host req =
           (case getRecommendations key fetch prompt of
              (Inl msg, calls) \<Rightarrow> (catch_answer msg, calls)
            | (Inr rawResponse, calls) \<Rightarrow>
                (\<lparr>status = 200,
                  body = Data_body
                           (if length (parseResponse rawResponse) < 5
                            then parseResponse rawResponse @ fallback_tips
                            else parseResponse rawResponse)
                           rawResponse\<rparr>, calls))"
  using assms
  by (simp add: explore_handler_def truthy_def Let_def split: prod.splits sum.splits)


lemma explore_handler_success:
  assumes "destination req = Some d" and "d \<noteq> []" and "k \<noteq> []"
    and "buildPrompt host d (timeOfYear req) (clientPreferences req) = Inr prompt"
    and "fetch k prompt = Responded r"
    and "ok r"
  shows "explore_handler (Some k) fetch host req =
           (\<lparr>status = 200,
             body = Data_body
                      (if length (parseResponse (content r)) < 5
                       then parseResponse (content r) @ fallback_tips
                       else parseResponse (content r))
                      (content r)\<rparr>,
            [(k, prompt)])"
  using assms(3,5,6)
  by (simp add: explore_handler_built [OF assms(1,2,4)] getRecommendations_responded)


lemma explore_handler_data:
  "body (fst (explore_handler key fetch host req)) = Data_body tips raw \<Longrightarrow>
   tips = (if length (parseResponse raw) < 5 then parseResponse raw @ fallback_tips
           else parseResponse raw)"
  by (auto simp: explore_handler_def catch_answer_def Let_def
      split: if_splits prod.splits sum.splits)

lemma length_parseResponse: "length (parseResponse raw) \<le> 10"
  by (simp add: parseResponse_def)

lemma parse_three_tips:
  "parseResponse three_tips
     = [js ''Visit the old town'', js ''See the cathedral'', js ''Walk along the river'']"
  by (simp add: three_tips_def parse_eval)

text \<open>
  Claim C3.  In a run of the pipeline that builds its prompt, reaches the backend and
  gets a successful answer, when fewer than 5 tips are parsed from the answer the tips
  returned are the parsed ones, in their order, followed by the five fixed tips in
  their order; with 3 parsed tips that is 8 tips.
\<close>

theorem C3_fallback_appended:
  "destination req = Some d \<and> d \<noteq> [] \<and> k \<noteq> []
   \<and> buildPrompt host d (timeOfYear req) (clientPreferences req) = Inr prompt
   \<and> fetch k prompt = Responded r \<and> ok r
   \<and> length (parseResponse (content r)) < 5
   \<longrightarrow>
     fst (explore_handler (Some k) fetch host req) =
       \<lparr>status = 200,
        body = Data_body
                 (parseResponse (content r) @
                  [js ''Visit the main tourist information center'',
                   js ''Ask your hotel concierge for local recommendations'',
                   js ''Check local event calendars for festivals'',
                   js ''Try local restaurants recommended by residents'',
                   js ''Explore nearby neighborhoods on foot''])
                 (content r)\<rparr>
     \<and> (length (parseResponse (content r)) = 3 \<longrightarrow>
          (\<exists>tips. body (fst (explore_handler (Some k) fetch host req)) = Data_body tips (content r)
                  \<and> length tips = 8 \<and> take 3 tips = parseResponse (content r)))"
proof (intro impI, elim conjE)
  assume a: "destination req = Some d" "d \<noteq> []" "k \<noteq> []"
    "buildPrompt host d (timeOfYear req) (clientPreferences req) = Inr prompt"
    "fetch k prompt = Responded r" "ok r"
    and few: "length (parseResponse (content r)) < 5"
  from explore_handler_success [of req d k host prompt fetch r, OF a] few
  have eq: "fst (explore_handler (Some k) fetch host req) =
       \<lparr>status = 200,
        body = Data_body (parseResponse (content r) @ fallback_tips) (content r)\<rparr>"
    by simp
  then show "fst (explore_handler (Some k) fetch host req) =
       \<lparr>status = 200,
        body = Data_body
                 (parseResponse (content r) @
                  [js ''Visit the main tourist information center'',
                   js ''Ask your hotel concierge for local recommendations'',
                   js ''Check local event calendars for festivals'',
                   js ''Try local restaurants recommended by residents'',
                   js ''Explore nearby neighborhoods on foot''])
                 (content r)\<rparr>
     \<and> (length (parseResponse (content r)) = 3 \<longrightarrow>
          (\<exists>tips. body (fst (explore_handler (Some k) fetch host req)) = Data_body tips (content r)
                  \<and> length tips = 8 \<and> take 3 tips = parseResponse (content r)))"
    by (simp add: fallback_tips_def)
qed

theorem C3_fallback_appended_witness:
  "destination paris = Some (js ''Paris'') \<and> js ''Paris'' \<noteq> [] \<and> js ''sk-test'' \<noteq> []
   \<and> length (parseResponse three_tips) = 3
   \<and> fst (explore_handler (Some (js ''sk-test'')) (answers_with three_tips) engine paris)
      = \<lparr>status = 200,
         body = Data_body
                  [js ''Visit the old town'', js ''See the cathedral'', js ''Walk along the river'',
                   js ''Visit the main tourist information center'',
                   js ''Ask your hotel concierge for local recommendations'',
                   js ''Check local event calendars for festivals'',
                   js ''Try local restaurants recommended by residents'',
                   js ''Explore nearby neighborhoods on foot'']
                  three_tips\<rparr>"
proof -
  have h: "destination paris = Some (js ''Paris'')" "js ''Paris'' \<noteq> []" "js ''sk-test'' \<noteq> []"
    by (simp_all add: paris_def js_def)
  have b: "buildPrompt engine (js ''Paris'') (timeOfYear paris) (clientPreferences paris)
             = Inr (js ''You are a travel expert. Give me detailed activity recommendations for ''
                      @ js ''Paris'' @ js ''.'' @ prompt_closing)"
    by (simp add: paris_def buildPrompt_plain)
  from h b C3_fallback_appended [of paris "js ''Paris''" "js ''sk-test''" engine
      "js ''You are a travel expert. Give me detailed activity recommendations for ''
         @ js ''Paris'' @ js ''.'' @ prompt_closing"
      "answers_with three_tips"
      "\<lparr>ok = True, error_message = None, content = three_tips\<rparr>"]
  show ?thesis by (simp add: parse_three_tips answers_with_def)
qed




text \<open>
  Claim C5, as the code has it.  The quota check is the first middleware of the route.
  A request without destination that the quota admits is answered with status 400 and
  without any outbound call, and the caller's counter is one higher than before; one
  that the quota refuses is answered with status 429 and the counter is unchanged.
\<close>

theorem C5_quota_counted_first:
  "\<not> truthy (destination req) \<longrightarrow>
     (stored m (rate_key ip today) < 60 \<longrightarrow>
        explore_destination ip today key fetch host req m =
          (\<lparr>status = 400, body = Error_body (js ''Destination is required'') None\<rparr>,
           AList.update (rate_key ip today) (stored m (rate_key ip today) + 1) m, [])
        \<and> stored (fst (snd (explore_destination ip today key fetch host req m))) (rate_key ip today)
            = stored m (rate_key ip today) + 1)
     \<and> (60 \<le> stored m (rate_key ip today) \<longrightarrow>
        explore_destination ip today key fetch host req m =
          (\<lparr>status = 429,
            body = Error_body (js ''Daily limit reached - try again tomorrow'') None\<rparr>, m, []))"
  by (auto simp: explore_destination_def explore_handler_def checkRateLimit_def stored_def
      DAILY_LIMIT_def Let_def update_conv split: option.splits)

theorem C5_quota_counted_first_witness:
  "\<not> truthy (destination no_destination)
   \<and> stored [] (rate_key (js ''::1'') (js ''Tue Nov 03 2026'')) < 60
   \<and> explore_destination (js ''::1'') (js ''Tue Nov 03 2026'') None (refuses_with []) engine
        no_destination []
       = (\<lparr>status = 400, body = Error_body (js ''Destination is required'') None\<rparr>,
          [(rate_key (js ''::1'') (js ''Tue Nov 03 2026''), 1)], [])
   \<and> 60 \<le> stored [(rate_key (js ''::1'') (js ''Tue Nov 03 2026''), 60)]
              (rate_key (js ''::1'') (js ''Tue Nov 03 2026''))
   \<and> explore_destination (js ''::1'') (js ''Tue Nov 03 2026'') None (refuses_with []) engine
        no_destination [(rate_key (js ''::1'') (js ''Tue Nov 03 2026''), 60)]
       = (\<lparr>status = 429,
           body = Error_body (js ''Daily limit reached - try again tomorrow'') None\<rparr>,
          [(rate_key (js ''::1'') (js ''Tue Nov 03 2026''), 60)], [])"
proof -
  have h: "\<not> truthy (destination no_destination)"
    "stored [] (rate_key (js ''::1'') (js ''Tue Nov 03 2026'')) = 0"
    "stored [(rate_key (js ''::1'') (js ''Tue Nov 03 2026''), 60)]
              (rate_key (js ''::1'') (js ''Tue Nov 03 2026'')) = 60"
    by (simp_all add: truthy_def no_destination_def stored_def)
  from h
    C5_quota_counted_first [of no_destination "[]" "js ''::1''" "js ''Tue Nov 03 2026''" None
      "refuses_with []" engine]
    C5_quota_counted_first [of no_destination
      "[(rate_key (js ''::1'') (js ''Tue Nov 03 2026''), 60)]" "js ''::1''" "js ''Tue Nov 03 2026''"
      None "refuses_with []" engine]
  show ?thesis by simp
qed

text \<open>
  The claim as stated fails: after the first request of a caller, sent without a
  destination and answered with status 400, the caller's counter is 1, not 0.
\<close>

theorem C5_counter_changed:
  "fst (explore_destination (js ''::1'') (js ''Tue Nov 03 2026'') None (refuses_with []) engine
          no_destination [])
     = \<lparr>status = 400, body = Error_body (js ''Destination is required'') None\<rparr>
   \<and> stored [] (rate_key (js ''::1'') (js ''Tue Nov 03 2026'')) = 0
   \<and> stored (fst (snd (explore_destination (js ''::1'') (js ''Tue Nov 03 2026'') None
                          (refuses_with []) engine no_destination [])))
        (rate_key (js ''::1'') (js ''Tue Nov 03 2026'')) = 1"
  by (simp add: explore_destination_def explore_handler_def checkRateLimit_def stored_def
      DAILY_LIMIT_def truthy_def no_destination_def)

text \<open>
  Claim C10.  Whenever the handler answers with tips, there are at least 5 and at most
  10 of them; and a run that builds its prompt, reaches the backend and gets a
  successful answer does answer with tips, whatever the text of the answer.
\<close>

theorem C10_between_5_and_10:
  "(body (fst (explore_handler key fetch host req)) = Data_body tips raw \<longrightarrow>
      5 \<le> length tips \<and> length tips \<le> 10)
   \<and> (destination req = Some d \<and> d \<noteq> [] \<and> k \<noteq> []
       \<and> buildPrompt host d (timeOfYear req) (clientPreferences req) = Inr prompt
       \<and> fetch k prompt = Responded r \<and> ok r
      \<longrightarrow> (\<exists>tips'. fst (explore_handler (Some k) fetch host req)
                       = \<lparr>status = 200, body = Data_body tips' (content r)\<rparr>
                   \<and> 5 \<le> length tips' \<and> length tips' \<le> 10))"
proof (intro conjI impI)
  assume "body (fst (explore_handler key fetch host req)) = Data_body tips raw"
  from explore_handler_data [OF this] length_parseResponse [of raw]
  show "5 \<le> length tips" and "length tips \<le> 10"
    by (auto simp: fallback_tips_def split: if_splits)
next
  assume "destination req = Some d \<and> d \<noteq> [] \<and> k \<noteq> []
       \<and> buildPrompt host d (timeOfYear req) (clientPreferences req) = Inr prompt
       \<and> fetch k prompt = Responded r \<and> ok r"
  then have a: "destination req = Some d" "d \<noteq> []" "k \<noteq> []"
    "buildPrompt host d (timeOfYear req) (clientPreferences req) = Inr prompt"
    "fetch k prompt = Responded r" "ok r"
    by simp_all
  from explore_handler_success [of req d k host prompt fetch r, OF a]
    length_parseResponse [of "content r"]
  show "\<exists>tips'. fst (explore_handler (Some k) fetch host req)
                       = \<lparr>status = 200, body = Data_body tips' (content r)\<rparr>
                   \<and> 5 \<le> length tips' \<and> length tips' \<le> 10"
    by (simp add: fallback_tips_def)
qed

theorem C10_between_5_and_10_witness:
  "body (fst (explore_handler (Some (js ''sk-test'')) (answers_with (js ''Sorry, no ideas.''))
                engine paris))
     = Data_body fallback_tips (js ''Sorry, no ideas.'')
   \<and> 5 \<le> length fallback_tips \<and> length fallback_tips \<le> 10
   \<and> destination paris = Some (js ''Paris'') \<and> js ''Paris'' \<noteq> [] \<and> js ''sk-test'' \<noteq> []
   \<and> (\<exists>tips'. fst (explore_handler (Some (js ''sk-test''))
                      (answers_with (js ''Sorry, no ideas.'')) engine paris)
                 = \<lparr>status = 200, body = Data_body tips' (js ''Sorry, no ideas.'')\<rparr>
               \<and> 5 \<le> length tips' \<and> length tips' \<le> 10)"
proof -
  let ?prompt = "js ''You are a travel expert. Give me detailed activity recommendations for ''
                   @ js ''Paris'' @ js ''.'' @ prompt_closing"
  have b: "buildPrompt engine (js ''Paris'') (timeOfYear paris) (clientPreferences paris)
             = Inr ?prompt"
    by (simp add: paris_def buildPrompt_plain)
  have h: "body (fst (explore_handler (Some (js ''sk-test''))
              (answers_with (js ''Sorry, no ideas.'')) engine paris))
     = Data_body fallback_tips (js ''Sorry, no ideas.'')"
    by (simp add: explore_handler_def getRecommendations_def truthy_def answers_with_def
        paris_def buildPrompt_plain parse_eval)
  have g: "destination paris = Some (js ''Paris'')" "js ''Paris'' \<noteq> []" "js ''sk-test'' \<noteq> []"
    by (simp_all add: paris_def js_def)
  from h g b C10_between_5_and_10 [of "Some (js ''sk-test'')"
      "answers_with (js ''Sorry, no ideas.'')" engine
      paris fallback_tips "js ''Sorry, no ideas.''" "js ''Paris''" "js ''sk-test''" ?prompt
      "\<lparr>ok = True, error_message = None, content = js ''Sorry, no ideas.''\<rparr>"]
  show ?thesis by (simp add: answers_with_def)
qed

end
